theory Spec2Isabelle
  imports Main "HOL-Library.Word"
begin

section \<open>The binlog tailer of \<^verbatim>\<open>binlog-tailer.js\<close>\<close>

text \<open>
  The program is one JavaScript function, \<^verbatim>\<open>MysqlBinlogTailer.prototype.stream\<close>, whose
  local variables are shared by a family of nested functions and callbacks. Node runs every
  callback to completion before the next one starts, so the embedding is a state record
  (the tailer's fields and effects, and the local variables of the running \<^verbatim>\<open>stream\<close>
  call) and one function per source function, each taking the state and returning the new
  one. The anonymous callbacks are named after the function that creates them
  (\<^verbatim>\<open>expectEvent_cb\<close> is the function passed to \<^verbatim>\<open>read\<close> inside \<^verbatim>\<open>expectEvent\<close>).
  What Node does between callbacks is an \<^emph>\<open>event\<close>: the completion of \<^verbatim>\<open>fs.stat\<close>,
  \<^verbatim>\<open>fs.open\<close> or \<^verbatim>\<open>fs.read\<close>, or a call of a \<^verbatim>\<open>fs.watchFile\<close> listener.
  The constructor (lines 11 to 28) reads the index file and calls \<^verbatim>\<open>stream\<close> once, on the
  last file the index names and with \<^verbatim>\<open>fastForward\<close> true; every other call of \<^verbatim>\<open>stream\<close>
  is the one of line 142, without \<^verbatim>\<open>fastForward\<close>.
\<close>

subsection \<open>Values\<close>

type_synonym byte = "8 word"
type_synonym buffer = "byte list"

text \<open>
  \<^verbatim>\<open>buffer.toString('utf-8')\<close> and \<^verbatim>\<open>path.join\<close> belong to Node, not to this program, and
  the program never looks inside what they return: it hands the value on, to a
  notification or to \<^verbatim>\<open>fs\<close>. So neither function is computed here. \<open>Utf8 b\<close> stands for
  the string \<^verbatim>\<open>toString('utf-8')\<close> returns for a buffer holding the bytes \<open>b\<close>, whatever
  that string is (Node replaces invalid sequences); \<open>PathJoin d name\<close> stands for the path
  \<^verbatim>\<open>path.join(d, name)\<close> returns, whatever that path is (Node normalises it); and
  \<open>Path b\<close> is a path the program was given, written with the bytes \<open>b\<close>. Two different
  terms may stand for the same string or path; nothing below concludes anything from two
  terms being different.
\<close>

datatype js_string = Utf8 buffer

datatype path =
    Path buffer
  | PathJoin path js_string

type_synonym fd = nat

text \<open>The argument of an \<^verbatim>\<open>'error'\<close> notification.\<close>

datatype cause =
    InvalidBinlog
  | InvalidBinlogVersion
  | IOError nat

text \<open>
  Exceptions that leave a callback. \<open>NoBytesWanted\<close> is the \<^verbatim>\<open>throw\<close> of line 230.
  \<open>ThisIsUndefined\<close> is the \<^verbatim>\<open>TypeError\<close> of \<^verbatim>\<open>this.emit\<close> at line 241: the file
  is strict code and Node calls the function given to \<^verbatim>\<open>fs.read\<close> as a plain function, so
  \<^verbatim>\<open>this\<close> is \<^verbatim>\<open>undefined\<close> there (the other callbacks use the variable \<^verbatim>\<open>that\<close>).
  \<open>StatIsUndefined\<close> and \<open>NotAFunction\<close> are the \<^verbatim>\<open>TypeError\<close>s of \<^verbatim>\<open>stat.size\<close> and of
  \<^verbatim>\<open>didReadCallback(buffer)\<close> on an unset variable. \<open>NotANumber\<close> stands for arithmetic on
  a byte read past the end of a buffer (\<^verbatim>\<open>NaN\<close> in JavaScript), and \<open>BadReadRequest\<close> for
  a read of a negative byte count or at a negative position; the model stops at both.
\<close>

datatype fault =
    NoBytesWanted
  | ThisIsUndefined
  | StatIsUndefined
  | NotAFunction
  | NotANumber
  | BadReadRequest

text \<open>The fourth argument of a \<^verbatim>\<open>'query'\<close> notification, when it is not \<^verbatim>\<open>undefined\<close>.\<close>

datatype meta = Meta (meta_lastInsertId: "nat option") (meta_autoIncrement: "nat option")

text \<open>
  The notifications: \<^verbatim>\<open>emit('log', ts, file)\<close>, \<^verbatim>\<open>emit('query', ts, db, query, meta)\<close>,
  \<^verbatim>\<open>emit('stop', ts)\<close>, \<^verbatim>\<open>emit('rotate', next)\<close> and \<^verbatim>\<open>emit('error', err)\<close>. A timestamp is
  the number of milliseconds the \<^verbatim>\<open>Date\<close> is built from.
\<close>

datatype notification =
    LogStarted nat path
  | Query nat js_string js_string "meta option"
  | ServerStopped nat
  | Rotated path
  | Error cause

text \<open>The functions a \<^verbatim>\<open>read\<close> can be given as its continuation.\<close>

datatype callback =
    ExpectHeaderCb
  | ExpectFirstEventCb
  | ExpectEventCb
  | ParseQueryEventCb nat
  | ParseAutoIntCb
  | ParseRotateEventCb

text \<open>Calls into the \<^verbatim>\<open>fs\<close> module, logged in the order they are made.\<close>

datatype fs_call =
    FsStat path
  | FsOpen path
  | FsWatchFile path
  | FsUnwatchFile path
  | FsClose "fd option"
  | FsRead "fd option" int int

text \<open>What Node delivers to the program.\<close>

datatype event =
    StatDone "nat + nat"
  | OpenDone "nat + fd"
  | FileChanged nat
  | ReadDone "nat + buffer"
  | NextFileChanged

subsection \<open>State\<close>

text \<open>
  \<open>dir\<close> is \<^verbatim>\<open>that.path\<close>; \<open>emitted\<close> the notifications published so far, oldest first;
  \<open>uncaught\<close> the exception that left a callback, if one did; \<open>awaiting_next\<close> the file
  watched by the listener of \<^verbatim>\<open>parseRotateEvent\<close>. The fields from \<open>file_name\<close> (the parameter \<^verbatim>\<open>file\<close>) to \<open>ready\<close> are
  the parameters and local variables of the running \<^verbatim>\<open>stream\<close> call, \<open>None\<close> for
  \<^verbatim>\<open>undefined\<close>; \<open>stat\<close> holds \<^verbatim>\<open>stat.size\<close>. The last four fields say which asynchronous
  operations of that call are outstanding: \<open>inflight\<close> is the position and byte count of
  the \<^verbatim>\<open>fs.read\<close> that has not completed.
\<close>

record state =
  dir :: path
  emitted :: "notification list"
  fs_log :: "fs_call list"
  uncaught :: "fault option"
  awaiting_next :: "path option"
  file_name :: path
  fastForward :: bool
  fastForwardUntil :: "nat option"
  lastInsertId :: "nat option"
  autoIncrement :: "nat option"
  stat :: "nat option"
  handle :: "fd option"
  didReadCallback :: "callback option"
  bytesWanted :: "int option"
  fileOffset :: int
  ready :: bool
  stat_pending :: bool
  open_pending :: bool
  watching :: bool
  inflight :: "(int \<times> int) option"

subsection \<open>Utilities (lines 155 to 169)\<close>

text \<open>\<^verbatim>\<open>buffer[i]\<close>: \<^verbatim>\<open>undefined\<close> past the end.\<close>

definition byte_at :: "buffer \<Rightarrow> nat \<Rightarrow> nat option" where
  "byte_at buffer i = (if i < length buffer then Some (unat (buffer ! i)) else None)"

text \<open>
  The sums are exact in JavaScript's numbers (below \<open>2 ^ 32\<close>). An index past the end
  makes the sum \<^verbatim>\<open>NaN\<close>, here \<open>None\<close>; the largest index read is the first one.
\<close>

definition readInt :: "buffer \<Rightarrow> nat \<Rightarrow> nat option" where
  "readInt buffer offset =
     (if offset + 3 < length buffer
      then Some (unat (buffer ! (offset + 3)) * 0x1000000 +
                 unat (buffer ! (offset + 2)) * 0x10000 +
                 unat (buffer ! (offset + 1)) * 0x100 +
                 unat (buffer ! offset))
      else None)"

definition readSmallint :: "buffer \<Rightarrow> nat \<Rightarrow> nat option" where
  "readSmallint buffer offset =
     (if offset + 1 < length buffer
      then Some (unat (buffer ! (offset + 1)) * 0x100 + unat (buffer ! offset))
      else None)"

definition readTimestamp :: "buffer \<Rightarrow> nat \<Rightarrow> nat option" where
  "readTimestamp buffer offset = map_option (\<lambda>n. n * 1000) (readInt buffer offset)"

text \<open>
  \<^verbatim>\<open>buffer.slice(start, end)\<close> and \<^verbatim>\<open>buffer.slice(start)\<close> as Node's \<^verbatim>\<open>Buffer\<close> has them: an
  index past the end is the end, a \<^verbatim>\<open>NaN\<close> index is 0, an empty range is an empty buffer.
\<close>

definition index_of :: "nat option \<Rightarrow> nat" where
  "index_of i = (case i of None \<Rightarrow> 0 | Some n \<Rightarrow> n)"

definition slice :: "buffer \<Rightarrow> nat option \<Rightarrow> nat option \<Rightarrow> buffer" where
  "slice buffer start fin = drop (index_of start) (take (index_of fin) buffer)"

definition slice_from :: "buffer \<Rightarrow> nat option \<Rightarrow> buffer" where
  "slice_from buffer start = drop (index_of start) buffer"

text \<open>\<^verbatim>\<open>a + b\<close> on numbers that may be \<^verbatim>\<open>undefined\<close> or \<^verbatim>\<open>NaN\<close>.\<close>

definition js_add :: "nat option \<Rightarrow> nat option \<Rightarrow> nat option" where
  "js_add a b = (case a of None \<Rightarrow> None | Some x \<Rightarrow> map_option (\<lambda>y. x + y) b)"

text \<open>The truth value of a variable in a condition: \<^verbatim>\<open>undefined\<close> and 0 are false.\<close>

definition truthy :: "nat option \<Rightarrow> bool" where
  "truthy v = (case v of None \<Rightarrow> False | Some n \<Rightarrow> n \<noteq> 0)"

text \<open>\<^verbatim>\<open>fastForwardUntil > fileOffset\<close>: false when the left side is \<^verbatim>\<open>undefined\<close>.\<close>

definition js_gt :: "nat option \<Rightarrow> int \<Rightarrow> bool" where
  "js_gt a b = (case a of None \<Rightarrow> False | Some x \<Rightarrow> b < int x)"

subsection \<open>File handling (lines 202 to 248)\<close>

definition emit :: "notification \<Rightarrow> state \<Rightarrow> state" where
  "emit n s = s\<lparr>emitted := emitted s @ [n]\<rparr>"

definition throw :: "fault \<Rightarrow> state \<Rightarrow> state" where
  "throw f s = s\<lparr>uncaught := Some f\<rparr>"

definition fs_call :: "fs_call \<Rightarrow> state \<Rightarrow> state" where
  "fs_call c s = s\<lparr>fs_log := fs_log s @ [c]\<rparr>"

definition skip :: "int \<Rightarrow> state \<Rightarrow> state" where
  "skip offset s = s\<lparr>fileOffset := fileOffset s + offset\<rparr>"

definition stop :: "state \<Rightarrow> state" where
  "stop s =
     (fs_call (FsClose (handle s)) (fs_call (FsUnwatchFile (file_name s)) s))
       \<lparr>watching := False, ready := False\<rparr>"

text \<open>
  \<^verbatim>\<open>readChunk\<close>, up to the call of \<^verbatim>\<open>fs.read\<close>; the function given to \<^verbatim>\<open>fs.read\<close> is
  \<open>readChunk_cb\<close> below. \<^verbatim>\<open>!bytesWanted\<close> holds for \<^verbatim>\<open>undefined\<close> and for 0.
\<close>

definition readChunk :: "state \<Rightarrow> state" where
  "readChunk s =
     (if \<not> ready s then s
      else (case bytesWanted s of
        None \<Rightarrow> throw NoBytesWanted s
      | Some n \<Rightarrow>
          (if n = 0 then throw NoBytesWanted s
           else (case stat s of
             None \<Rightarrow> throw StatIsUndefined s
           | Some sz \<Rightarrow>
               (if int sz < fileOffset s + n then s
                else if n < 0 then throw BadReadRequest (s\<lparr>ready := False\<rparr>)
                else if fileOffset s < 0 then throw BadReadRequest (s\<lparr>ready := False\<rparr>)
                else (fs_call (FsRead (handle s) (fileOffset s) n) s)
                       \<lparr>ready := False, inflight := Some (fileOffset s, n)\<rparr>)))))"

definition read :: "int \<Rightarrow> callback \<Rightarrow> state \<Rightarrow> state" where
  "read bytes cb s = readChunk (s\<lparr>bytesWanted := Some bytes, didReadCallback := Some cb\<rparr>)"

subsection \<open>Binlog parsers (lines 38 to 151)\<close>

definition expectHeader :: "state \<Rightarrow> state" where
  "expectHeader s = read 4 ExpectHeaderCb s"

definition expectFirstEvent :: "state \<Rightarrow> state" where
  "expectFirstEvent s = read 19 ExpectFirstEventCb s"

definition expectEvent :: "state \<Rightarrow> state" where
  "expectEvent s = read 19 ExpectEventCb s"

definition expectHeader_cb :: "buffer \<Rightarrow> state \<Rightarrow> state" where
  "expectHeader_cb buffer s =
     (if byte_at buffer 0 = Some 0xfe \<and> byte_at buffer 1 = Some 0x62 \<and>
         byte_at buffer 2 = Some 0x69 \<and> byte_at buffer 3 = Some 0x6e
      then expectFirstEvent s
      else emit (Error InvalidBinlog) (stop s))"

definition expectFirstEvent_cb :: "buffer \<Rightarrow> state \<Rightarrow> state" where
  "expectFirstEvent_cb buffer s =
     (if byte_at buffer 4 = Some 15
      then (case (readTimestamp buffer 0, readInt buffer 9) of
              (Some ts, Some eventLength) \<Rightarrow>
                expectEvent (emit (LogStarted ts (file_name s)) (skip (int eventLength - 19) s))
            | _ \<Rightarrow> throw NotANumber s)
      else emit (Error InvalidBinlogVersion) (stop s))"

definition parseQueryEvent_cb :: "nat \<Rightarrow> buffer \<Rightarrow> state \<Rightarrow> state" where
  "parseQueryEvent_cb ts buffer s =
     (let nameLen = byte_at buffer 8;
          statusLen = readSmallint buffer 11;
          carried = (truthy (lastInsertId s) \<or> truthy (autoIncrement s));
          meta = (if carried then Some (Meta (lastInsertId s) (autoIncrement s)) else None);
          s1 = (if carried then s\<lparr>lastInsertId := None, autoIncrement := None\<rparr> else s);
          db = Utf8 (slice buffer (js_add (Some 13) statusLen)
                       (js_add (js_add (Some 13) statusLen) nameLen));
          query = Utf8 (slice_from buffer (js_add (js_add (Some 14) nameLen) statusLen))
      in expectEvent (emit (Query ts db query meta) s1))"

definition parseQueryEvent :: "buffer \<Rightarrow> state \<Rightarrow> state" where
  "parseQueryEvent buffer s =
     (case (readTimestamp buffer 0, readInt buffer 9) of
        (Some ts, Some eventLength) \<Rightarrow>
          (if js_gt (fastForwardUntil s) (fileOffset s)
           then expectEvent (skip (int eventLength - int (length buffer)) s)
           else read (int eventLength - int (length buffer)) (ParseQueryEventCb ts) s)
      | _ \<Rightarrow> throw NotANumber s)"

definition parseAutoInt_cb :: "buffer \<Rightarrow> state \<Rightarrow> state" where
  "parseAutoInt_cb buffer s =
     (if byte_at buffer 0 = Some 1
      then (case readInt buffer 1 of
              None \<Rightarrow> throw NotANumber s
            | Some v \<Rightarrow> expectEvent (s\<lparr>lastInsertId := Some v\<rparr>))
      else if byte_at buffer 0 = Some 2
      then (case readInt buffer 1 of
              None \<Rightarrow> throw NotANumber s
            | Some v \<Rightarrow> expectEvent (s\<lparr>autoIncrement := Some v\<rparr>))
      else expectEvent s)"

definition parseAutoInt :: "buffer \<Rightarrow> state \<Rightarrow> state" where
  "parseAutoInt buffer s = read 9 ParseAutoIntCb s"

text \<open>
  The listener given to \<^verbatim>\<open>fs.watchFile(next, ...)\<close> is \<open>parseRotateEvent_watch\<close> below;
  here it is registered.
\<close>

definition parseRotateEvent_cb :: "buffer \<Rightarrow> state \<Rightarrow> state" where
  "parseRotateEvent_cb buffer s =
     (let s1 = stop s;
          nxt = PathJoin (dir s1) (Utf8 (slice_from buffer (Some 8)));
          s2 = emit (Rotated nxt) s1
      in (fs_call (FsWatchFile nxt) s2)\<lparr>awaiting_next := Some nxt\<rparr>)"

definition parseRotateEvent :: "buffer \<Rightarrow> state \<Rightarrow> state" where
  "parseRotateEvent buffer s =
     (case readInt buffer 9 of
        None \<Rightarrow> throw NotANumber s
      | Some eventLength \<Rightarrow>
          read (int eventLength - int (length buffer)) ParseRotateEventCb s)"

definition parseStopEvent :: "buffer \<Rightarrow> state \<Rightarrow> state" where
  "parseStopEvent buffer s =
     (case readTimestamp buffer 0 of
        None \<Rightarrow> throw NotANumber s
      | Some ts \<Rightarrow> emit (ServerStopped ts) s)"

definition expectEvent_cb :: "buffer \<Rightarrow> state \<Rightarrow> state" where
  "expectEvent_cb buffer s =
     (if byte_at buffer 4 = Some 2 then parseQueryEvent buffer s
      else if byte_at buffer 4 = Some 3 then parseStopEvent buffer s
      else if byte_at buffer 4 = Some 4 then parseRotateEvent buffer s
      else if byte_at buffer 4 = Some 5 then parseAutoInt buffer s
      else (case readInt buffer 9 of
        None \<Rightarrow> throw NotANumber s
      | Some eventLength \<Rightarrow> skip (int eventLength - 19) s))"

text \<open>\<^verbatim>\<open>didReadCallback(buffer)\<close>.\<close>

fun call_cb :: "callback \<Rightarrow> buffer \<Rightarrow> state \<Rightarrow> state" where
  "call_cb ExpectHeaderCb buffer s = expectHeader_cb buffer s"
| "call_cb ExpectFirstEventCb buffer s = expectFirstEvent_cb buffer s"
| "call_cb ExpectEventCb buffer s = expectEvent_cb buffer s"
| "call_cb (ParseQueryEventCb ts) buffer s = parseQueryEvent_cb ts buffer s"
| "call_cb ParseAutoIntCb buffer s = parseAutoInt_cb buffer s"
| "call_cb ParseRotateEventCb buffer s = parseRotateEvent_cb buffer s"

subsection \<open>The callbacks Node calls\<close>

text \<open>The function given to \<^verbatim>\<open>fs.read\<close> (lines 238 to 247).\<close>

definition readChunk_cb :: "nat + buffer \<Rightarrow> state \<Rightarrow> state" where
  "readChunk_cb r s =
     (case r of
        Inl err \<Rightarrow> throw ThisIsUndefined (stop s)
      | Inr buffer \<Rightarrow>
          (case bytesWanted s of
             None \<Rightarrow> throw NotANumber s
           | Some n \<Rightarrow>
               (case didReadCallback s of
                  None \<Rightarrow>
                    throw NotAFunction
                      (s\<lparr>fileOffset := fileOffset s + n, bytesWanted := Some 0, ready := True\<rparr>)
                | Some cb \<Rightarrow>
                    call_cb cb buffer
                      (s\<lparr>fileOffset := fileOffset s + n, bytesWanted := Some 0, ready := True\<rparr>))))"

text \<open>The function given to \<^verbatim>\<open>fs.open\<close> (lines 186 to 199), and its listener.\<close>

definition stream_watch :: "nat \<Rightarrow> state \<Rightarrow> state" where
  "stream_watch val s = readChunk (s\<lparr>stat := Some val\<rparr>)"

definition stream_open_cb :: "nat + fd \<Rightarrow> state \<Rightarrow> state" where
  "stream_open_cb r s =
     (case r of
        Inl err \<Rightarrow> emit (Error (IOError err)) s
      | Inr val \<Rightarrow>
          (let s1 = readChunk (s\<lparr>handle := Some val, ready := True\<rparr>)
           in if uncaught s1 = None
              then (fs_call (FsWatchFile (file_name s1)) s1)\<lparr>watching := True\<rparr>
              else s1))"

text \<open>The function given to \<^verbatim>\<open>fs.stat\<close> (lines 176 to 200).\<close>

definition stream_stat_cb :: "nat + nat \<Rightarrow> state \<Rightarrow> state" where
  "stream_stat_cb r s =
     (case r of
        Inl err \<Rightarrow> emit (Error (IOError err)) s
      | Inr val \<Rightarrow>
          (fs_call (FsOpen (file_name s))
             (s\<lparr>stat := Some val,
                fastForwardUntil := (if fastForward s then Some val else fastForwardUntil s)\<rparr>))
            \<lparr>open_pending := True\<rparr>)"

text \<open>
  \<^verbatim>\<open>stream(file, fastForward)\<close>: a new set of local variables, the call of \<^verbatim>\<open>fs.stat\<close>,
  the initialisations of lines 89 and 223, and \<^verbatim>\<open>expectHeader()\<close>.
\<close>

definition stream :: "path \<Rightarrow> bool \<Rightarrow> state \<Rightarrow> state" where
  "stream f ff s =
     expectHeader
       ((fs_call (FsStat f) s)
          \<lparr>file_name := f, fastForward := ff, fastForwardUntil := None,
           lastInsertId := None, autoIncrement := None, stat := None, handle := None,
           didReadCallback := None, bytesWanted := None, fileOffset := 0, ready := False,
           stat_pending := True, open_pending := False, watching := False,
           inflight := None\<rparr>)"

text \<open>The listener of line 140: \<^verbatim>\<open>that.stream(next)\<close>, where \<^verbatim>\<open>fastForward\<close> is \<^verbatim>\<open>undefined\<close>.\<close>

definition parseRotateEvent_watch :: "path \<Rightarrow> state \<Rightarrow> state" where
  "parseRotateEvent_watch nxt s =
     stream nxt False ((fs_call (FsUnwatchFile nxt) s)\<lparr>awaiting_next := None\<rparr>)"

subsection \<open>Events\<close>

text \<open>
  One event runs one callback to completion. An event whose operation is not outstanding
  cannot occur and changes nothing; neither does any event after an exception has left a
  callback (the process has ended). \<^verbatim>\<open>fs.read\<close> hands back the buffer that line 238
  allocated, so its length is the byte count asked for.
\<close>

definition step :: "event \<Rightarrow> state \<Rightarrow> state" where
  "step e s =
     (if uncaught s \<noteq> None then s
      else (case e of
        StatDone r \<Rightarrow>
          (if stat_pending s then stream_stat_cb r (s\<lparr>stat_pending := False\<rparr>) else s)
      | OpenDone r \<Rightarrow>
          (if open_pending s then stream_open_cb r (s\<lparr>open_pending := False\<rparr>) else s)
      | FileChanged val \<Rightarrow>
          (if watching s then stream_watch val s else s)
      | ReadDone r \<Rightarrow>
          (case inflight s of
             None \<Rightarrow> s
           | Some (pos, n) \<Rightarrow>
               (case r of
                  Inl err \<Rightarrow> readChunk_cb r (s\<lparr>inflight := None\<rparr>)
                | Inr buffer \<Rightarrow>
                    (if int (length buffer) = n then readChunk_cb r (s\<lparr>inflight := None\<rparr>)
                     else s)))
      | NextFileChanged \<Rightarrow>
          (case awaiting_next s of
             None \<Rightarrow> s
           | Some nxt \<Rightarrow> parseRotateEvent_watch nxt s)))"

definition run :: "event list \<Rightarrow> state \<Rightarrow> state" where
  "run es s = fold step es s"

text \<open>A tailer whose directory is \<open>d\<close>, before its first \<^verbatim>\<open>stream\<close> call.\<close>

definition tailer :: "path \<Rightarrow> state" where
  "tailer d =
     \<lparr>dir = d, emitted = [], fs_log = [], uncaught = None, awaiting_next = None,
      file_name = Path [], fastForward = False, fastForwardUntil = None, lastInsertId = None,
      autoIncrement = None, stat = None, handle = None, didReadCallback = None,
      bytesWanted = None, fileOffset = 0, ready = False, stat_pending = False,
      open_pending = False, watching = False, inflight = None\<rparr>"

subsection \<open>Reading a file\<close>

text \<open>
  The bytes a read of \<open>n\<close> bytes at \<open>pos\<close> finds in a file whose content is \<open>content\<close>, and
  the decoder run on that file: every outstanding read is completed with the file's bytes,
  at most \<open>k\<close> times, until no read is outstanding.
\<close>

definition file_bytes :: "buffer \<Rightarrow> int \<Rightarrow> int \<Rightarrow> buffer" where
  "file_bytes content pos n = take (nat n) (drop (nat pos) content)"

fun feed :: "buffer \<Rightarrow> nat \<Rightarrow> state \<Rightarrow> state" where
  "feed content 0 s = s"
| "feed content (Suc k) s =
     (case inflight s of
        None \<Rightarrow> s
      | Some (pos, n) \<Rightarrow> feed content k (step (ReadDone (Inr (file_bytes content pos n))) s))"

text \<open>
  A file that is all there when its session starts: \<^verbatim>\<open>fs.stat\<close> reports its size,
  \<^verbatim>\<open>fs.open\<close> succeeds with the descriptor \<open>h\<close>, and the reads are served from it.
\<close>

definition serve :: "buffer \<Rightarrow> fd \<Rightarrow> nat \<Rightarrow> state \<Rightarrow> state" where
  "serve content h k s =
     feed content k (step (OpenDone (Inr h)) (step (StatDone (Inr (length content))) s))"

section \<open>Reachable states and what holds in them\<close>

text \<open>
  The states a tailer can be in: \<^verbatim>\<open>stream\<close> has been called on a new tailer, and any
  number of events have been delivered.
\<close>

inductive reachable :: "state \<Rightarrow> bool" where
  start: "reachable (stream f ff (tailer d))"
| later: "reachable s \<Longrightarrow> reachable (step e s)"

text \<open>The byte count each continuation is registered with, where the source fixes it.\<close>

definition cb_wants :: "callback \<Rightarrow> int \<Rightarrow> bool" where
  "cb_wants cb n =
     (case cb of
        ExpectHeaderCb \<Rightarrow> n = 4
      | ExpectFirstEventCb \<Rightarrow> n = 19
      | ExpectEventCb \<Rightarrow> n = 19
      | ParseQueryEventCb ts \<Rightarrow> True
      | ParseAutoIntCb \<Rightarrow> n = 9
      | ParseRotateEventCb \<Rightarrow> True)"

text \<open>
  The invariant of the reachable states. Only three exceptions ever leave a callback. While
  none has: a continuation and a byte count are registered; \<open>ready\<close> excludes an outstanding
  read and comes with a known size; the phases of a session (waiting for \<^verbatim>\<open>fs.stat\<close>,
  for \<^verbatim>\<open>fs.open\<close>, reading, waiting for the next file) exclude each other; and an outstanding
  read is for a positive byte count at the logical offset.
\<close>

definition session_inv :: "state \<Rightarrow> bool" where
  "session_inv s =
     (case uncaught s of
        Some f \<Rightarrow> f = NoBytesWanted \<or> f = ThisIsUndefined \<or> f = BadReadRequest
      | None \<Rightarrow>
          (\<exists>n cb. bytesWanted s = Some n \<and> didReadCallback s = Some cb \<and>
                  (n = 0 \<or> cb_wants cb n)) \<and>
          (ready s \<longrightarrow> inflight s = None \<and> stat s \<noteq> None \<and> \<not> stat_pending s \<and>
                      \<not> open_pending s \<and> awaiting_next s = None) \<and>
          (watching s \<longrightarrow> \<not> stat_pending s \<and> \<not> open_pending s \<and> awaiting_next s = None) \<and>
          (stat_pending s \<longrightarrow> \<not> open_pending s \<and> inflight s = None \<and>
                             awaiting_next s = None) \<and>
          (open_pending s \<longrightarrow> stat s \<noteq> None \<and> inflight s = None \<and>
                             awaiting_next s = None) \<and>
          (case inflight s of
             None \<Rightarrow> True
           | Some (pos, n) \<Rightarrow>
               pos = fileOffset s \<and> bytesWanted s = Some n \<and> 0 < n \<and> 0 \<le> pos \<and>
               \<not> ready s \<and> stat s \<noteq> None \<and> awaiting_next s = None))"

text \<open>The state in which \<^verbatim>\<open>didReadCallback(buffer)\<close> is called at line 246.\<close>

definition armed :: "state \<Rightarrow> bool" where
  "armed s =
     (uncaught s = None \<and> inflight s = None \<and> ready s \<and> stat s \<noteq> None \<and>
      \<not> stat_pending s \<and> \<not> open_pending s \<and> awaiting_next s = None \<and>
      didReadCallback s \<noteq> None \<and> bytesWanted s = Some 0)"

text \<open>
  The decoder has asked for the header of the event that starts at offset \<open>p\<close>, and the
  read is outstanding.
\<close>

definition at_event :: "state \<Rightarrow> nat \<Rightarrow> bool" where
  "at_event s p =
     (uncaught s = None \<and> inflight s = Some (int p, 19) \<and> bytesWanted s = Some 19 \<and>
      didReadCallback s = Some ExpectEventCb \<and> fileOffset s = int p \<and> \<not> ready s)"

text \<open>The calls into \<^verbatim>\<open>fs\<close> made on the way from \<open>s\<close> to \<open>s'\<close>.\<close>

definition new_calls :: "state \<Rightarrow> state \<Rightarrow> fs_call list" where
  "new_calls s s' = drop (length (fs_log s)) (fs_log s')"

text \<open>
  A call, if it is a read, asks for a positive number of bytes at the logical offset, and
  the range asked for ends at or before the known size.
\<close>

definition within_known_size :: "state \<Rightarrow> fs_call \<Rightarrow> bool" where
  "within_known_size s c =
     (case c of
        FsRead h pos n \<Rightarrow>
          (case stat s of
             None \<Rightarrow> False
           | Some sz \<Rightarrow> pos = fileOffset s \<and> 0 \<le> pos \<and> 0 < n \<and> pos + n \<le> int sz)
      | _ \<Rightarrow> True)"

text \<open>
  From \<open>s\<close> to \<open>s'\<close> the log of calls has only grown, and every read added to it is
  within the size known in \<open>s'\<close>.
\<close>

definition calls_ok :: "state \<Rightarrow> state \<Rightarrow> bool" where
  "calls_ok s s' =
     (\<exists>cs. fs_log s' = fs_log s @ cs \<and> (\<forall>c \<in> set cs. within_known_size s' c))"

text \<open>At least one of the two carry variables holds a number that is not 0.\<close>

definition carry_pending :: "nat option \<Rightarrow> nat option \<Rightarrow> bool" where
  "carry_pending l a = ((l \<noteq> None \<and> l \<noteq> Some 0) \<or> (a \<noteq> None \<and> a \<noteq> Some 0))"

text \<open>
  The state in which line 246 calls the continuation, once a read of \<open>n\<close> bytes has
  completed (lines 243 to 245): the logical offset has moved on by \<open>n\<close>.
\<close>

definition completed :: "state \<Rightarrow> int \<Rightarrow> state" where
  "completed s n =
     s\<lparr>inflight := None, fileOffset := fileOffset s + n, bytesWanted := Some 0, ready := True\<rparr>"

text \<open>
  The buffer, given to one of the two continuations that read an event header, declares an
  event shorter than the 19 bytes of the header itself.
\<close>

definition declares_short :: "callback \<Rightarrow> buffer \<Rightarrow> bool" where
  "declares_short cb buffer =
     ((cb = ExpectFirstEventCb \<or> cb = ExpectEventCb) \<and>
      (case readInt buffer 9 of None \<Rightarrow> False | Some eventLength \<Rightarrow> eventLength < 19))"

section \<open>Example files\<close>

text \<open>
  Binlog fragments used below, byte by byte. Every event starts with the 19-byte header:
  timestamp (4 bytes, little-endian), type code, server id (4), event length (4), next
  position (4), flags (2).
\<close>

definition ex_dir :: path where
  "ex_dir = Path [0x64]"

definition ex_file :: path where
  "ex_file = Path [0x66]"

definition ex_magic :: buffer where
  "ex_magic = [0xfe, 0x62, 0x69, 0x6e]"

text \<open>A format-description event (type 15) of 27 bytes, timestamp 1.\<close>

definition ex_format_head :: buffer where
  "ex_format_head = [1, 0, 0, 0,  15,  1, 0, 0, 0,  27, 0, 0, 0,  0, 0, 0, 0,  0, 0]"

definition ex_format :: buffer where
  "ex_format = ex_format_head @ [4, 0, 53, 46, 53, 0, 0, 0]"

text \<open>
  The header of a format-description event that declares 100 bytes, and one that
  declares 0 bytes.
\<close>

definition ex_format_head_100 :: buffer where
  "ex_format_head_100 = [1, 0, 0, 0,  15,  1, 0, 0, 0,  100, 0, 0, 0,  0, 0, 0, 0,  0, 0]"

definition ex_format_head_0 :: buffer where
  "ex_format_head_0 = [1, 0, 0, 0,  15,  1, 0, 0, 0,  0, 0, 0, 0,  0, 0, 0, 0,  0, 0]"

text \<open>An Xid event (type 16, not one the decoder knows) of 27 bytes, timestamp 2.\<close>

definition ex_xid :: buffer where
  "ex_xid = [2, 0, 0, 0,  16,  1, 0, 0, 0,  27, 0, 0, 0,  0, 0, 0, 0,  0, 0,
             9, 0, 0, 0, 0, 0, 0, 0]"

text \<open>
  A Query event (type 2) of 60 bytes, timestamp 3: schema \<^verbatim>\<open>app\<close>, no status variables,
  text \<^verbatim>\<open>INSERT INTO t VALUES (1)\<close>.
\<close>

definition ex_app_bytes :: buffer where
  "ex_app_bytes = [0x61, 0x70, 0x70]"

definition ex_insert_bytes :: buffer where
  "ex_insert_bytes =
     [0x49, 0x4e, 0x53, 0x45, 0x52, 0x54, 0x20, 0x49, 0x4e, 0x54, 0x4f, 0x20,
      0x74, 0x20, 0x56, 0x41, 0x4c, 0x55, 0x45, 0x53, 0x20, 0x28, 0x31, 0x29]"

definition ex_app :: js_string where
  "ex_app = Utf8 ex_app_bytes"

definition ex_insert :: js_string where
  "ex_insert = Utf8 ex_insert_bytes"

definition ex_query_head :: buffer where
  "ex_query_head = [3, 0, 0, 0,  2,  1, 0, 0, 0,  60, 0, 0, 0,  0, 0, 0, 0,  0, 0]"

definition ex_query_body :: buffer where
  "ex_query_body = [7, 0, 0, 0,  0, 0, 0, 0,  3,  0, 0,  0, 0] @ ex_app_bytes @ [0] @ ex_insert_bytes"

definition ex_query :: buffer where
  "ex_query = ex_query_head @ ex_query_body"

text \<open>A Stop event (type 3), timestamp 4.\<close>

definition ex_stop :: buffer where
  "ex_stop = [4, 0, 0, 0,  3,  1, 0, 0, 0,  19, 0, 0, 0,  0, 0, 0, 0,  0, 0]"

text \<open>
  The header of an IntVar event (type 5) of 28 bytes, timestamp 5, and three bodies:
  last-insert-id 7, last-insert-id 0 and insert-id 5.
\<close>

definition ex_intvar_head :: buffer where
  "ex_intvar_head = [5, 0, 0, 0,  5,  1, 0, 0, 0,  28, 0, 0, 0,  0, 0, 0, 0,  0, 0]"

definition ex_last_insert_id_7 :: buffer where
  "ex_last_insert_id_7 = [1,  7, 0, 0, 0,  0, 0, 0, 0]"

definition ex_last_insert_id_0 :: buffer where
  "ex_last_insert_id_0 = [1,  0, 0, 0, 0,  0, 0, 0, 0]"

definition ex_insert_id_5 :: buffer where
  "ex_insert_id_5 = [2,  5, 0, 0, 0,  0, 0, 0, 0]"

text \<open>A Rotate event (type 4) of 28 bytes, timestamp 6, to the file \<^verbatim>\<open>g\<close>.\<close>

definition ex_rotate_head :: buffer where
  "ex_rotate_head = [6, 0, 0, 0,  4,  1, 0, 0, 0,  28, 0, 0, 0,  0, 0, 0, 0,  0, 0]"

definition ex_rotate_body :: buffer where
  "ex_rotate_body = [4, 0, 0, 0, 0, 0, 0, 0,  0x67]"

text \<open>The path of that file: \<^verbatim>\<open>path.join\<close> of the directory and the decoded name.\<close>

definition ex_next :: path where
  "ex_next = PathJoin ex_dir (Utf8 [0x67])"

text \<open>
  A tailer that has been through a rotation. Its first file (magic, format description,
  Rotate to \<^verbatim>\<open>g\<close>: 59 bytes) was read with fast-forward, as the constructor starts it;
  \<open>Rotated\<close> was published, and the listener on the next file has been called.
\<close>

definition ex_rotated :: state where
  "ex_rotated =
     step NextFileChanged
       (serve (ex_magic @ ex_format @ ex_rotate_head @ ex_rotate_body) 3 9
          (stream ex_file True (tailer ex_dir)))"

text \<open>
  A tailer whose first file has grown. The file (magic and format description: 31 bytes)
  was read with fast-forward, as the constructor starts it; then an Xid event and a Query
  event were appended, the watch listener was called with the new size, 118, and the reads
  the decoder asked for were completed.
\<close>

definition ex_appended :: state where
  "ex_appended =
     feed (ex_magic @ ex_format @ ex_xid @ ex_query) 9
       (step (FileChanged 118)
          (serve (ex_magic @ ex_format) 3 9 (stream ex_file True (tailer ex_dir))))"

section \<open>Running the decoder on the example files\<close>

lemmas model_defs =
  serve_def tailer_def stream_def step_def file_bytes_def run_def
  stream_stat_cb_def stream_open_cb_def stream_watch_def readChunk_cb_def readChunk_def
  read_def expectHeader_def expectFirstEvent_def expectEvent_def expectHeader_cb_def
  expectFirstEvent_cb_def expectEvent_cb_def parseQueryEvent_def parseQueryEvent_cb_def
  parseAutoInt_def parseAutoInt_cb_def parseRotateEvent_def parseRotateEvent_cb_def
  parseStopEvent_def parseRotateEvent_watch_def emit_def throw_def fs_call_def skip_def
  stop_def byte_at_def readInt_def readSmallint_def readTimestamp_def slice_def
  slice_from_def index_of_def js_add_def truthy_def js_gt_def Let_def

lemmas ex_defs =
  ex_dir_def ex_file_def ex_magic_def ex_format_head_def ex_format_def ex_format_head_100_def
  ex_format_head_0_def ex_app_bytes_def ex_insert_bytes_def
  ex_xid_def ex_app_def ex_insert_def ex_query_head_def ex_query_body_def ex_query_def
  ex_stop_def ex_intvar_head_def ex_last_insert_id_7_def ex_last_insert_id_0_def
  ex_insert_id_5_def ex_rotate_head_def ex_rotate_body_def ex_next_def

lemma feed_numeral:
  "feed c (numeral k) s =
     (case inflight s of
        None \<Rightarrow> s
      | Some (pos, n) \<Rightarrow>
          feed c (pred_numeral k) (step (ReadDone (Inr (file_bytes c pos n))) s))"
  by (simp add: numeral_eq_Suc)

lemma feed_One:
  "feed c 1 s =
     (case inflight s of
        None \<Rightarrow> s
      | Some (pos, n) \<Rightarrow> step (ReadDone (Inr (file_bytes c pos n))) s)"
  by (simp split: option.split)

lemma ex_rotated_state:
  "emitted ex_rotated = [LogStarted 1000 ex_file, Rotated ex_next]"
  "file_name ex_rotated = ex_next"
  "fastForwardUntil ex_rotated = None"
  "stat_pending ex_rotated = True"
  by (simp_all add: ex_rotated_def model_defs ex_defs feed_numeral feed_One)

text \<open>
  The end-to-end example of the specification, on a file without a fast-forward
  threshold: after the rotation, the three notifications, in order, and the decoder left
  at the end of the file.
\<close>

lemma example_end_to_end:
  "emitted (serve (ex_magic @ ex_format @ ex_query @ ex_stop) 4 9 ex_rotated) =
     [LogStarted 1000 ex_file, Rotated ex_next,
      LogStarted 1000 ex_next, Query 3000 ex_app ex_insert None, ServerStopped 4000]"
  "fileOffset (serve (ex_magic @ ex_format @ ex_query @ ex_stop) 4 9 ex_rotated) = 110"
  by (simp_all add: ex_rotated_def model_defs ex_defs feed_numeral feed_One)

section \<open>Properties of the handlers\<close>

subsection \<open>What a read request leaves alone\<close>

lemma readChunk_frame [simp]:
  "emitted (readChunk s) = emitted s"
  "fileOffset (readChunk s) = fileOffset s"
  "stat (readChunk s) = stat s"
  "lastInsertId (readChunk s) = lastInsertId s"
  "autoIncrement (readChunk s) = autoIncrement s"
  "fastForward (readChunk s) = fastForward s"
  "fastForwardUntil (readChunk s) = fastForwardUntil s"
  "file_name (readChunk s) = file_name s"
  "dir (readChunk s) = dir s"
  "handle (readChunk s) = handle s"
  "watching (readChunk s) = watching s"
  "awaiting_next (readChunk s) = awaiting_next s"
  "stat_pending (readChunk s) = stat_pending s"
  "open_pending (readChunk s) = open_pending s"
  by (simp_all add: readChunk_def throw_def fs_call_def split: option.split)

lemma read_frame [simp]:
  "emitted (read n cb s) = emitted s"
  "fileOffset (read n cb s) = fileOffset s"
  "stat (read n cb s) = stat s"
  "lastInsertId (read n cb s) = lastInsertId s"
  "autoIncrement (read n cb s) = autoIncrement s"
  "fastForward (read n cb s) = fastForward s"
  "fastForwardUntil (read n cb s) = fastForwardUntil s"
  "file_name (read n cb s) = file_name s"
  "dir (read n cb s) = dir s"
  "handle (read n cb s) = handle s"
  "watching (read n cb s) = watching s"
  "awaiting_next (read n cb s) = awaiting_next s"
  "stat_pending (read n cb s) = stat_pending s"
  "open_pending (read n cb s) = open_pending s"
  by (simp_all add: read_def)

text \<open>
  What \<^verbatim>\<open>readChunk\<close> adds to the log of calls: nothing, or one read, of a positive
  number of bytes at the logical offset and within the known size. So it is for every
  handler, and for every event.
\<close>

lemma readChunk_calls:
  "fs_log (readChunk s) = fs_log s \<or>
   (\<exists>n sz. bytesWanted s = Some n \<and> stat s = Some sz \<and> 0 < n \<and> 0 \<le> fileOffset s \<and>
      fileOffset s + n \<le> int sz \<and>
      fs_log (readChunk s) = fs_log s @ [FsRead (handle s) (fileOffset s) n])"
  by (auto simp: readChunk_def throw_def fs_call_def split: option.split)

lemma calls_ok_readChunk: "calls_ok s (readChunk s)"
  using readChunk_calls [of s]
  by (auto simp: calls_ok_def within_known_size_def)

lemma calls_ok_read: "fs_log s0 = fs_log s \<Longrightarrow> calls_ok s (read n cb s0)"
  using calls_ok_readChunk [of "s0\<lparr>bytesWanted := Some n, didReadCallback := Some cb\<rparr>"]
  by (simp add: read_def calls_ok_def)

lemma calls_ok_same: "fs_log s' = fs_log s \<Longrightarrow> calls_ok s s'"
  by (simp add: calls_ok_def)

lemma calls_ok_stop: "fs_log s0 = fs_log s \<Longrightarrow> calls_ok s (emit x (stop s0))"
  by (simp add: calls_ok_def emit_def stop_def fs_call_def within_known_size_def)

lemma fs_log_upd [simp]:
  "fs_log (emit x s) = fs_log s"
  "fs_log (skip k s) = fs_log s"
  "fs_log (throw f s) = fs_log s"
  by (simp_all add: emit_def skip_def throw_def)

lemma calls_ok_call_cb: "calls_ok s (call_cb cb buffer s)"
proof (cases cb)
  case ExpectHeaderCb
  then show ?thesis
    by (simp add: expectHeader_cb_def expectFirstEvent_def calls_ok_read calls_ok_stop)
next
  case ExpectFirstEventCb
  then show ?thesis
    by (simp add: expectFirstEvent_cb_def expectEvent_def calls_ok_read calls_ok_stop
          calls_ok_same split: option.split)
next
  case ExpectEventCb
  then show ?thesis
    by (simp add: expectEvent_cb_def parseQueryEvent_def parseStopEvent_def parseRotateEvent_def
          parseAutoInt_def expectEvent_def calls_ok_read calls_ok_same split: option.split)
next
  case (ParseQueryEventCb ts)
  then show ?thesis
    by (simp add: parseQueryEvent_cb_def Let_def expectEvent_def calls_ok_read)
next
  case ParseAutoIntCb
  then show ?thesis
    by (simp add: parseAutoInt_cb_def expectEvent_def calls_ok_read calls_ok_same
          split: option.split)
next
  case ParseRotateEventCb
  then show ?thesis
    by (simp add: parseRotateEvent_cb_def Let_def calls_ok_def emit_def stop_def fs_call_def
          within_known_size_def)
qed

lemma calls_ok_step: "calls_ok s (step e s)"
proof (cases e)
  case (StatDone r)
  then show ?thesis
    by (simp add: step_def stream_stat_cb_def calls_ok_def emit_def fs_call_def
          within_known_size_def split: sum.split)
next
  case (OpenDone r)
  show ?thesis
  proof (cases r)
    case (Inl err)
    with OpenDone show ?thesis
      by (simp add: step_def stream_open_cb_def calls_ok_def emit_def)
  next
    case (Inr h)
    let ?s0 = "s\<lparr>open_pending := False, handle := Some h, ready := True\<rparr>"
    from calls_ok_readChunk [of ?s0]
    obtain cs where "fs_log (readChunk ?s0) = fs_log s @ cs"
      "\<forall>c \<in> set cs. within_known_size (readChunk ?s0) c"
      by (auto simp: calls_ok_def)
    then have "calls_ok s ((fs_call (FsWatchFile (file_name (readChunk ?s0))) (readChunk ?s0))\<lparr>watching := True\<rparr>)"
      by (auto simp: calls_ok_def fs_call_def within_known_size_def split: fs_call.splits option.splits)
    moreover have "calls_ok s (readChunk ?s0)"
      using calls_ok_readChunk [of ?s0] by (simp add: calls_ok_def)
    ultimately show ?thesis using OpenDone Inr
      by (simp add: step_def stream_open_cb_def Let_def calls_ok_same)
  qed
next
  case (FileChanged v)
  have "calls_ok s (readChunk (s\<lparr>stat := Some v\<rparr>))"
    using calls_ok_readChunk [of "s\<lparr>stat := Some v\<rparr>"] by (simp add: calls_ok_def)
  then show ?thesis using FileChanged
    by (simp add: step_def stream_watch_def calls_ok_same)
next
  case (ReadDone r)
  have a: "calls_ok s (throw ThisIsUndefined (stop (s\<lparr>inflight := None\<rparr>)))"
    by (simp add: calls_ok_def throw_def stop_def fs_call_def within_known_size_def)
  have b: "calls_ok s (call_cb cb buffer (s\<lparr>inflight := None, fileOffset := k, bytesWanted := Some 0, ready := True\<rparr>))"
    for cb buffer k
    using calls_ok_call_cb [of "s\<lparr>inflight := None, fileOffset := k, bytesWanted := Some 0, ready := True\<rparr>" cb buffer]
    by (simp add: calls_ok_def)
  show ?thesis using ReadDone a b
    by (simp add: step_def readChunk_cb_def calls_ok_same split: option.split sum.split prod.split)
next
  case NextFileChanged
  then show ?thesis
    by (simp add: step_def parseRotateEvent_watch_def stream_def expectHeader_def read_def
          readChunk_def calls_ok_def fs_call_def within_known_size_def split: option.split)
qed

subsection \<open>The invariant\<close>

text \<open>Every handler keeps the invariant, so every reachable state has it.\<close>

lemma stream_inv:
  "uncaught s = None \<Longrightarrow> awaiting_next s = None \<Longrightarrow> session_inv (stream f ff s)"
  by (simp add: session_inv_def stream_def expectHeader_def read_def readChunk_def fs_call_def
        cb_wants_def)

lemma read_inv: "armed s \<Longrightarrow> n = 0 \<or> cb_wants cb n \<Longrightarrow> session_inv (read n cb s)"
  by (auto simp: armed_def session_inv_def read_def readChunk_def fs_call_def throw_def
           split: option.splits)

lemma armed_upd [simp]:
  "armed (skip k s) = armed s"
  "armed (emit x s) = armed s"
  "armed (s\<lparr>lastInsertId := a\<rparr>) = armed s"
  "armed (s\<lparr>autoIncrement := b\<rparr>) = armed s"
  by (simp_all add: armed_def skip_def emit_def)

lemma armed_inv: "armed s \<Longrightarrow> session_inv s"
  by (auto simp: armed_def session_inv_def)

lemma stopped_inv: "armed s \<Longrightarrow> session_inv (emit x (stop s))"
  by (auto simp: armed_def session_inv_def emit_def stop_def fs_call_def)

lemma thrown_inv:
  "session_inv (throw NoBytesWanted s)"
  "session_inv (throw ThisIsUndefined s)"
  "session_inv (throw BadReadRequest s)"
  by (simp_all add: session_inv_def throw_def)

lemma call_cb_inv:
  assumes "armed s" and "cb_wants cb (int (length buffer))"
  shows "session_inv (call_cb cb buffer s)"
proof (cases cb)
  case ExpectHeaderCb
  with assms show ?thesis
    by (simp add: expectHeader_cb_def expectFirstEvent_def read_inv stopped_inv cb_wants_def)
next
  case ExpectFirstEventCb
  with assms show ?thesis
    by (simp add: expectFirstEvent_cb_def expectEvent_def read_inv stopped_inv cb_wants_def
          readTimestamp_def readInt_def)
next
  case ExpectEventCb
  with assms show ?thesis
    by (simp add: expectEvent_cb_def parseQueryEvent_def parseStopEvent_def parseRotateEvent_def
          parseAutoInt_def expectEvent_def read_inv armed_inv cb_wants_def
          readTimestamp_def readInt_def)
next
  case (ParseQueryEventCb ts)
  with assms show ?thesis
    by (simp add: parseQueryEvent_cb_def Let_def expectEvent_def read_inv cb_wants_def)
next
  case ParseAutoIntCb
  with assms show ?thesis
    by (simp add: parseAutoInt_cb_def expectEvent_def read_inv cb_wants_def readInt_def)
next
  case ParseRotateEventCb
  with assms show ?thesis
    by (auto simp: parseRotateEvent_cb_def Let_def armed_def session_inv_def emit_def stop_def
          fs_call_def)
qed

lemma step_inv: "session_inv s \<Longrightarrow> session_inv (step e s)"
proof (cases e)
  case (StatDone r)
  assume "session_inv s"
  then show ?thesis using StatDone
    by (auto simp: session_inv_def step_def stream_stat_cb_def emit_def fs_call_def
             split: option.splits sum.splits)
next
  case (OpenDone r)
  assume "session_inv s"
  then show ?thesis using OpenDone
    by (auto simp: session_inv_def step_def stream_open_cb_def readChunk_def emit_def
          fs_call_def throw_def split: option.splits sum.splits)
next
  case (FileChanged v)
  assume "session_inv s"
  then show ?thesis using FileChanged
    by (auto simp: session_inv_def step_def stream_watch_def readChunk_def emit_def fs_call_def
          throw_def split: option.splits sum.splits)
next
  case (ReadDone r)
  assume inv: "session_inv s"
  show ?thesis
  proof (cases "uncaught s = None \<and> inflight s \<noteq> None")
    case False
    with inv ReadDone show ?thesis by (auto simp: step_def split: option.splits)
  next
    case True
    then obtain pos n where fl: "inflight s = Some (pos, n)" and un: "uncaught s = None"
      by auto
    from inv fl un obtain cb where cb: "didReadCallback s = Some cb" "n = 0 \<or> cb_wants cb n"
      and bw: "bytesWanted s = Some n"
      and rest: "0 < n" "stat s \<noteq> None" "awaiting_next s = None"
        "\<not> stat_pending s" "\<not> open_pending s"
      by (auto simp: session_inv_def)
    show ?thesis
    proof (cases r)
      case (Inl err)
      with ReadDone fl un show ?thesis
        by (simp add: step_def readChunk_cb_def thrown_inv)
    next
      case (Inr buffer)
      show ?thesis
      proof (cases "int (length buffer) = n")
        case False
        with ReadDone Inr fl un inv show ?thesis by (simp add: step_def)
      next
        case True
        let ?s0 = "s\<lparr>inflight := None, fileOffset := fileOffset s + n,
                      bytesWanted := Some 0, ready := True\<rparr>"
        have "armed ?s0" using un cb rest by (simp add: armed_def)
        moreover have "cb_wants cb (int (length buffer))" using cb rest True by auto
        ultimately have "session_inv (call_cb cb buffer ?s0)" by (rule call_cb_inv)
        with ReadDone Inr fl un True cb bw show ?thesis
          by (simp add: step_def readChunk_cb_def)
      qed
    qed
  qed
next
  case NextFileChanged
  assume "session_inv s"
  then show ?thesis using NextFileChanged
    by (auto simp: step_def parseRotateEvent_watch_def stream_inv fs_call_def
             split: option.splits)
qed

lemma reachable_inv: "reachable s \<Longrightarrow> session_inv s"
proof (induction rule: reachable.induct)
  case (start f ff d)
  show ?case by (rule stream_inv) (simp_all add: tailer_def)
next
  case (later s e)
  then show ?case by (simp add: step_inv)
qed

text \<open>
  So the exceptions that stand for an unset variable or for a byte read past the end of a
  buffer (\<open>StatIsUndefined\<close>, \<open>NotAFunction\<close>, \<open>NotANumber\<close>) never occur.
\<close>

lemma reachable_faults:
  assumes "reachable s" and "uncaught s = Some f"
  shows "f = NoBytesWanted \<or> f = ThisIsUndefined \<or> f = BadReadRequest"
  using reachable_inv [OF assms(1)] assms(2) by (simp add: session_inv_def)


lemma reachable_feed: "reachable s \<Longrightarrow> reachable (feed c k s)"
  by (induction k arbitrary: s) (auto intro: reachable.later split: option.split)

lemma reachable_serve: "reachable s \<Longrightarrow> reachable (serve c h k s)"
  unfolding serve_def by (intro reachable_feed reachable.later)

subsection \<open>The offset\<close>

text \<open>
  A continuation moves the offset back by no more than the length of the buffer it is
  given, which the completed read has just added.
\<close>

lemma call_cb_offset:
  assumes "cb_wants cb (int (length buffer))"
  shows "fileOffset s - int (length buffer) \<le> fileOffset (call_cb cb buffer s)"
proof (cases cb)
  case ExpectHeaderCb
  then show ?thesis
    by (simp add: expectHeader_cb_def expectFirstEvent_def emit_def stop_def fs_call_def)
next
  case ExpectFirstEventCb
  with assms show ?thesis
    by (simp add: expectFirstEvent_cb_def expectEvent_def emit_def stop_def fs_call_def
          skip_def throw_def cb_wants_def split: option.split)
next
  case ExpectEventCb
  with assms show ?thesis
    by (simp add: expectEvent_cb_def parseQueryEvent_def parseStopEvent_def parseRotateEvent_def
          parseAutoInt_def expectEvent_def emit_def skip_def throw_def cb_wants_def
          split: option.split)
next
  case (ParseQueryEventCb ts)
  then show ?thesis
    by (simp add: parseQueryEvent_cb_def Let_def expectEvent_def emit_def)
next
  case ParseAutoIntCb
  then show ?thesis
    by (simp add: parseAutoInt_cb_def expectEvent_def throw_def split: option.split)
next
  case ParseRotateEventCb
  then show ?thesis
    by (simp add: parseRotateEvent_cb_def Let_def emit_def stop_def fs_call_def)
qed

text \<open>
  After the read completion, the rest of the callback leaves the offset where it is or moves
  it on, unless the header declares fewer than 19 bytes.
\<close>

lemma call_cb_keeps_offset:
  assumes "cb_wants cb (int (length buffer))" and "\<not> declares_short cb buffer"
  shows "fileOffset s \<le> fileOffset (call_cb cb buffer s)"
proof (cases cb)
  case ExpectHeaderCb
  then show ?thesis
    by (simp add: expectHeader_cb_def expectFirstEvent_def emit_def stop_def fs_call_def)
next
  case ExpectFirstEventCb
  with assms show ?thesis
    by (auto simp: expectFirstEvent_cb_def expectEvent_def emit_def stop_def fs_call_def
          skip_def throw_def cb_wants_def declares_short_def split: option.splits)
next
  case ExpectEventCb
  with assms show ?thesis
    by (auto simp: expectEvent_cb_def parseQueryEvent_def parseStopEvent_def
          parseRotateEvent_def parseAutoInt_def expectEvent_def emit_def skip_def throw_def
          cb_wants_def declares_short_def split: option.splits)
next
  case (ParseQueryEventCb ts)
  then show ?thesis
    by (simp add: parseQueryEvent_cb_def Let_def expectEvent_def emit_def)
next
  case ParseAutoIntCb
  then show ?thesis
    by (simp add: parseAutoInt_cb_def expectEvent_def throw_def split: option.split)
next
  case ParseRotateEventCb
  then show ?thesis
    by (simp add: parseRotateEvent_cb_def Let_def emit_def stop_def fs_call_def)
qed

lemma step_offset:
  assumes "session_inv s" and "e \<noteq> NextFileChanged"
  shows "fileOffset s \<le> fileOffset (step e s)"
proof (cases e)
  case (StatDone r)
  then show ?thesis
    by (simp add: step_def stream_stat_cb_def emit_def fs_call_def split: sum.split)
next
  case (OpenDone r)
  then show ?thesis
    by (simp add: step_def stream_open_cb_def emit_def fs_call_def Let_def split: sum.split)
next
  case (FileChanged v)
  then show ?thesis by (simp add: step_def stream_watch_def)
next
  case (ReadDone r)
  show ?thesis
  proof (cases "uncaught s = None \<and> inflight s \<noteq> None")
    case False
    with ReadDone show ?thesis by (auto simp: step_def split: option.splits)
  next
    case True
    then obtain pos n where fl: "inflight s = Some (pos, n)" and un: "uncaught s = None"
      by auto
    from assms(1) fl un obtain cb where cb: "didReadCallback s = Some cb" "n = 0 \<or> cb_wants cb n"
      and bw: "bytesWanted s = Some n" and pos: "0 < n"
      by (auto simp: session_inv_def)
    show ?thesis
    proof (cases r)
      case (Inl err)
      with ReadDone fl un show ?thesis
        by (simp add: step_def readChunk_cb_def throw_def stop_def fs_call_def)
    next
      case (Inr buffer)
      show ?thesis
      proof (cases "int (length buffer) = n")
        case False
        with ReadDone Inr fl un show ?thesis by (simp add: step_def)
      next
        case True
        let ?s0 = "s\<lparr>inflight := None, fileOffset := fileOffset s + n,
                      bytesWanted := Some 0, ready := True\<rparr>"
        have "cb_wants cb (int (length buffer))" using cb pos True by auto
        from call_cb_offset [OF this, of ?s0] True
        have "fileOffset s \<le> fileOffset (call_cb cb buffer ?s0)" by simp
        with ReadDone Inr fl un True cb bw show ?thesis
          by (simp add: step_def readChunk_cb_def)
      qed
    qed
  qed
next
  case NextFileChanged
  with assms show ?thesis by simp
qed

subsection \<open>One read completion, symbolically\<close>

lemma step_ReadDone:
  assumes "uncaught s = None" "inflight s = Some (pos, n)" "int (length buf) = n"
    "bytesWanted s = Some n" "didReadCallback s = Some cb"
  shows "step (ReadDone (Inr buf)) s =
     call_cb cb buf (s\<lparr>inflight := None, fileOffset := fileOffset s + n,
                          bytesWanted := Some 0, ready := True\<rparr>)"
  using assms by (simp add: step_def readChunk_cb_def)

lemma read_issued:
  assumes "ready s" "stat s = Some sz" "0 < n" "0 \<le> fileOffset s" "fileOffset s + n \<le> int sz"
  shows "read n cb s =
     s\<lparr>bytesWanted := Some n, didReadCallback := Some cb,
       fs_log := fs_log s @ [FsRead (handle s) (fileOffset s) n],
       ready := False, inflight := Some (fileOffset s, n)\<rparr>"
  using assms by (simp add: read_def readChunk_def fs_call_def)

text \<open>
  The threshold is set when \<^verbatim>\<open>fs.stat\<close> completes and stays as it is until the next file
  is started.
\<close>

lemma call_cb_frame [simp]:
  "fastForwardUntil (call_cb cb buffer s) = fastForwardUntil s"
  "fastForward (call_cb cb buffer s) = fastForward s"
  "stat_pending (call_cb cb buffer s) = stat_pending s"
  "dir (call_cb cb buffer s) = dir s"
  by (cases cb;
      simp add: expectHeader_cb_def expectFirstEvent_cb_def expectEvent_cb_def
        parseQueryEvent_cb_def parseQueryEvent_def parseAutoInt_cb_def parseAutoInt_def
        parseRotateEvent_cb_def parseRotateEvent_def parseStopEvent_def expectEvent_def
        expectFirstEvent_def emit_def skip_def stop_def throw_def fs_call_def Let_def
        split: option.split)+

lemma step_keeps_threshold:
  assumes "e \<noteq> NextFileChanged" and "\<not> stat_pending s"
  shows "fastForwardUntil (step e s) = fastForwardUntil s \<and> \<not> stat_pending (step e s)"
  using assms
  by (cases e)
     (simp_all add: step_def stream_open_cb_def stream_watch_def readChunk_cb_def emit_def
        fs_call_def throw_def stop_def Let_def split: option.split sum.split prod.split)

lemma run_keeps_threshold:
  assumes "NextFileChanged \<notin> set es" and "\<not> stat_pending s"
  shows "fastForwardUntil (run es s) = fastForwardUntil s \<and> \<not> stat_pending (run es s)"
  using assms
proof (induction es arbitrary: s)
  case Nil
  then show ?case by (simp add: run_def)
next
  case (Cons e es)
  from Cons.prems have e: "e \<noteq> NextFileChanged" and es: "NextFileChanged \<notin> set es" by auto
  from step_keeps_threshold [OF e Cons.prems(2)]
  have k: "fastForwardUntil (step e s) = fastForwardUntil s" "\<not> stat_pending (step e s)"
    by simp_all
  from Cons.IH [OF es k(2)] k(1) show ?case by (simp add: run_def)
qed

lemma fast_forward_session_threshold:
  assumes "NextFileChanged \<notin> set es"
  shows "fastForwardUntil (run es (step (StatDone (Inr S)) (stream f True (tailer d)))) = Some S"
proof -
  let ?s = "step (StatDone (Inr S)) (stream f True (tailer d))"
  have "fastForwardUntil ?s = Some S" "\<not> stat_pending ?s"
    by (simp_all add: step_def stream_def expectHeader_def read_def readChunk_def tailer_def
          fs_call_def stream_stat_cb_def)
  with run_keeps_threshold [OF assms, of ?s] show ?thesis by simp
qed

subsection \<open>Sessions without a threshold, and stopped sessions\<close>




subsection \<open>Where decoding ends\<close>

text \<open>
  After the header of a Stop event or of an event of a type the decoder does not know, no
  read is outstanding and none is wanted, while the cursor is ready: whatever is appended
  to the file is not read, and the next call of the watch listener throws.
\<close>

lemma decoding_ends_after_stop_or_unknown_event:
  assumes "at_event s p" and "length hdr = 19"
    and "byte_at hdr 4 \<noteq> Some 2" and "byte_at hdr 4 \<noteq> Some 4" and "byte_at hdr 4 \<noteq> Some 5"
  shows "uncaught (step (ReadDone (Inr hdr)) s) = None"
    and "inflight (step (ReadDone (Inr hdr)) s) = None"
    and "bytesWanted (step (ReadDone (Inr hdr)) s) = Some 0"
    and "ready (step (ReadDone (Inr hdr)) s)"
    and "watching s \<Longrightarrow>
         uncaught (step (FileChanged v) (step (ReadDone (Inr hdr)) s)) = Some NoBytesWanted"
proof -
  let ?s' = "step (ReadDone (Inr hdr)) s"
  have after: "uncaught ?s' = None \<and> inflight ?s' = None \<and> bytesWanted ?s' = Some 0 \<and>
      ready ?s' \<and> watching ?s' = watching s"
    using assms
    by (simp add: at_event_def step_ReadDone expectEvent_cb_def parseStopEvent_def
          readTimestamp_def readInt_def emit_def skip_def)
  then show "uncaught ?s' = None" "inflight ?s' = None" "bytesWanted ?s' = Some 0" "ready ?s'"
    by simp_all
  show "uncaught (step (FileChanged v) ?s') = Some NoBytesWanted" if "watching s"
    using after that by (simp add: step_def stream_watch_def readChunk_def throw_def)
qed

text \<open>A read that fails: the session is torn down, and nothing is published.\<close>

lemma read_failure:
  assumes "uncaught s = None" and "inflight s = Some (pos, n)"
  shows "emitted (step (ReadDone (Inl err)) s) = emitted s"
    and "uncaught (step (ReadDone (Inl err)) s) = Some ThisIsUndefined"
    and "new_calls s (step (ReadDone (Inl err)) s) =
           [FsUnwatchFile (file_name s), FsClose (handle s)]"
    and "inflight (step (ReadDone (Inl err)) s) = None"
    and "watching (step (ReadDone (Inl err)) s) = False"
  using assms
  by (simp_all add: step_def readChunk_cb_def throw_def stop_def fs_call_def new_calls_def)

subsection \<open>The threshold test\<close>

text \<open>
  In a session started with fast-forward, whose threshold \<open>S\<close> is the size \<^verbatim>\<open>fs.stat\<close>
  reported, take a Query event whose header the decoder has asked for at offset \<open>p\<close>,
  with a body that is not empty. If the event ends at or before \<open>S\<close>, completing the
  header read publishes nothing, moves the offset to the end of the event, and the only
  read it can issue is the next header's: the body is never read. If the event starts at
  or after \<open>S\<close> and lies within the known size, completing the header and body reads
  publishes exactly one \<open>Query\<close>, with the header's timestamp.
\<close>

lemma query_event_and_threshold:
  assumes "s = run es (step (StatDone (Inr S)) (stream f True (tailer d)))"
    and "NextFileChanged \<notin> set es"
    and "at_event s p"
    and "length hdr = 19" and "byte_at hdr 4 = Some 2"
    and "readInt hdr 9 = Some (19 + length body)" and "body \<noteq> []"
    and "readTimestamp hdr 0 = Some ts"
  shows "(p + 19 + length body \<le> S \<longrightarrow>
            emitted (step (ReadDone (Inr hdr)) s) = emitted s \<and>
            fileOffset (step (ReadDone (Inr hdr)) s) = int (p + 19 + length body) \<and>
            (\<forall>c \<in> set (new_calls s (step (ReadDone (Inr hdr)) s)).
               c = FsRead (handle s) (int (p + 19 + length body)) 19)) \<and>
         (S \<le> p \<and> (\<exists>sz. stat s = Some sz \<and> p + 19 + length body \<le> sz) \<longrightarrow>
            (\<exists>db query meta.
               emitted (run [ReadDone (Inr hdr), ReadDone (Inr body)] s) =
                 emitted s @ [Query ts db query meta]))"
proof -
  have ff: "fastForwardUntil s = Some S"
    using assms(1,2) by (simp add: fast_forward_session_threshold)
  note ts = assms(8)
  from assms(7) have len: "0 < length body" by simp
  let ?s0 = "s\<lparr>inflight := None, fileOffset := int p + 19, bytesWanted := Some 0, ready := True\<rparr>"
  have st: "step (ReadDone (Inr hdr)) s = parseQueryEvent hdr ?s0"
    using assms(3,4,5) by (simp add: at_event_def step_ReadDone expectEvent_cb_def)
  have a: "emitted (step (ReadDone (Inr hdr)) s) = emitted s \<and>
           fileOffset (step (ReadDone (Inr hdr)) s) = int (p + 19 + length body) \<and>
           (\<forall>c \<in> set (new_calls s (step (ReadDone (Inr hdr)) s)).
              c = FsRead (handle s) (int (p + 19 + length body)) 19)"
    if "p + 19 + length body \<le> S"
  proof -
    from that len have lt: "int p + 19 < int S" by linarith
    let ?s1 = "(skip (int (length body)) ?s0)\<lparr>bytesWanted := Some 19, didReadCallback := Some ExpectEventCb\<rparr>"
    have e: "step (ReadDone (Inr hdr)) s = readChunk ?s1"
      using assms(4,6) ts ff lt
      by (simp add: st parseQueryEvent_def js_gt_def expectEvent_def read_def)
    from readChunk_calls [of ?s1] show ?thesis
      unfolding e by (auto simp: new_calls_def skip_def)
  qed
  have b: "\<exists>db query meta.
             emitted (run [ReadDone (Inr hdr), ReadDone (Inr body)] s) =
               emitted s @ [Query ts db query meta]"
    if "S \<le> p" and "stat s = Some sz" and "p + 19 + length body \<le> sz" for sz
    using that assms(3,4,5,6,7) ts ff
    by (simp add: run_def at_event_def step_ReadDone read_issued expectEvent_cb_def expectEvent_def
          parseQueryEvent_def parseQueryEvent_cb_def js_gt_def emit_def Let_def)
  from a b show ?thesis by blast
qed

section \<open>The claims\<close>

text \<open>
  C1. The claim: a well-formed file decoded without fast-forward publishes one
  \<open>LogStarted\<close>, then one notification per Query and Stop event and none for the other
  events, in file order, and the offset ends at the file size. The code stops decoding
  after the first event of a type it does not know: the default branch of
  \<^verbatim>\<open>expectEvent\<close> skips the event and does not call \<^verbatim>\<open>expectEvent()\<close> again. On the
  rotated-to file magic, format description, Xid, Query (118 bytes) only \<open>LogStarted\<close> is
  published for it, no read is outstanding and none is wanted, and the offset stays at 58.
\<close>

theorem C1_decoding_stops_after_unknown_event:
  "emitted (serve (ex_magic @ ex_format @ ex_xid @ ex_query) 4 9 ex_rotated) =
     [LogStarted 1000 ex_file, Rotated ex_next, LogStarted 1000 ex_next] \<and>
   fileOffset (serve (ex_magic @ ex_format @ ex_xid @ ex_query) 4 9 ex_rotated) = 58 \<and>
   inflight (serve (ex_magic @ ex_format @ ex_xid @ ex_query) 4 9 ex_rotated) = None \<and>
   bytesWanted (serve (ex_magic @ ex_format @ ex_xid @ ex_query) 4 9 ex_rotated) = Some 0 \<and>
   stat (serve (ex_magic @ ex_format @ ex_xid @ ex_query) 4 9 ex_rotated) = Some 118"
  by (simp add: ex_rotated_def model_defs ex_defs feed_numeral feed_One)

text \<open>
  C2. The claim: in a session started with fast-forward, whose threshold \<open>S\<close> is the file
  size at the start, a Query event that lies below \<open>S\<close> is not published and every Query
  event that starts at or after \<open>S\<close> is published once. The test of line 95 does that for
  a Query event whose header the decoder reads (lemma \<open>query_event_and_threshold\<close>), but
  the decoder does not read every event: after an event of a type it does not know, the
  default branch of lines 81 to 83 asks for no further read. In \<open>ex_appended\<close> the
  threshold is 31 and the file has grown to 118 bytes, by an Xid event at offset 31 and a
  Query event at offset 58. The Xid header is the last thing read: the offset stays at 58,
  the Query event is not published, and the next call of the watch listener throws.
\<close>

theorem C2_query_after_threshold_not_published:
  "fastForwardUntil ex_appended = Some 31 \<and>
   stat ex_appended = Some 118 \<and>
   fs_log ex_appended =
     [FsStat ex_file, FsOpen ex_file, FsRead (Some 3) 0 4, FsWatchFile ex_file,
      FsRead (Some 3) 4 19, FsRead (Some 3) 31 19] \<and>
   fileOffset ex_appended = 58 \<and>
   inflight ex_appended = None \<and>
   uncaught ex_appended = None \<and>
   emitted ex_appended = [LogStarted 1000 ex_file] \<and>
   uncaught (step (FileChanged 118) ex_appended) = Some NoBytesWanted \<and>
   emitted (step (FileChanged 118) ex_appended) = [LogStarted 1000 ex_file]"
  by (simp add: ex_appended_def model_defs ex_defs feed_numeral feed_One)




text \<open>
  C4. The claim: within a session the logical offset does not decrease across any
  operation (read completion or skip), is always at most the known file size, and no read
  is issued for a range that ends beyond the known size. Two parts fail, both in \<^verbatim>\<open>skip\<close>,
  which adds the declared event length minus 19 to the offset without looking at either
  (it "only affects next read"). In a file of 23 bytes, the magic and the header of a
  format-description event that declares 100 bytes, the offset is 104 after the header is
  read. In a file of 23 bytes whose header declares 0 bytes, the read completion moves
  the offset from 4 to 23 and the skip of \<open>-19\<close> moves it back to 4, where the same 19
  bytes are read a second time.
\<close>

theorem C4_offset_exceeds_size_and_skip_moves_back:
  "stat (serve (ex_magic @ ex_format_head_100) 3 9 (stream ex_file True (tailer ex_dir))) = Some 23 \<and>
   fileOffset (serve (ex_magic @ ex_format_head_100) 3 9 (stream ex_file True (tailer ex_dir))) = 104 \<and>
   fileOffset (completed (serve (ex_magic @ ex_format_head_0) 3 1 (stream ex_file True (tailer ex_dir))) 19) = 23 \<and>
   step (ReadDone (Inr ex_format_head_0))
     (serve (ex_magic @ ex_format_head_0) 3 1 (stream ex_file True (tailer ex_dir))) =
     expectFirstEvent_cb ex_format_head_0
       (completed (serve (ex_magic @ ex_format_head_0) 3 1 (stream ex_file True (tailer ex_dir))) 19) \<and>
   fileOffset
     (skip (int 0 - 19)
        (completed (serve (ex_magic @ ex_format_head_0) 3 1 (stream ex_file True (tailer ex_dir))) 19)) = 4 \<and>
   fileOffset
     (expectFirstEvent_cb ex_format_head_0
        (completed (serve (ex_magic @ ex_format_head_0) 3 1 (stream ex_file True (tailer ex_dir))) 19)) = 4 \<and>
   fs_log (serve (ex_magic @ ex_format_head_0) 3 9 (stream ex_file True (tailer ex_dir))) =
     [FsStat ex_file, FsOpen ex_file, FsRead (Some 3) 0 4, FsWatchFile ex_file,
      FsRead (Some 3) 4 19, FsRead (Some 3) 4 19]"
  by (simp add: completed_def model_defs ex_defs feed_numeral feed_One)

text \<open>
  C4, as amended. In every reachable state and for every event: every read issued while
  the event is handled is for a positive number of bytes at the logical offset and ends
  at or before the known size; unless the event starts the session on the next file, the
  offset after it is not below the offset before it; and when the event is the completion
  of a read of \<open>n\<close> bytes, \<open>n\<close> is positive, the continuation is called with the offset
  moved on by \<open>n\<close>, and what the continuation does (a skip, if anything) leaves the offset
  there or moves it on, unless the buffer is an event header that declares fewer than 19
  bytes.
\<close>

theorem C4_offset_per_operation_reads_within_size:
  assumes "reachable s"
  shows "(\<forall>c \<in> set (new_calls s (step e s)). within_known_size (step e s) c) \<and>
         (e \<noteq> NextFileChanged \<longrightarrow> fileOffset s \<le> fileOffset (step e s)) \<and>
         (\<forall>buffer pos n.
            e = ReadDone (Inr buffer) \<and> uncaught s = None \<and> inflight s = Some (pos, n) \<and>
            int (length buffer) = n \<longrightarrow>
              0 < n \<and> fileOffset (completed s n) = fileOffset s + n \<and>
              (\<exists>cb. didReadCallback s = Some cb \<and>
                    step e s = call_cb cb buffer (completed s n) \<and>
                    (\<not> declares_short cb buffer \<longrightarrow>
                       fileOffset (completed s n) \<le> fileOffset (step e s))))"
proof -
  from assms have inv: "session_inv s" by (rule reachable_inv)
  have reads: "\<forall>c \<in> set (new_calls s (step e s)). within_known_size (step e s) c"
    using calls_ok_step [of s e] by (auto simp: calls_ok_def new_calls_def)
  from inv have net: "e \<noteq> NextFileChanged \<longrightarrow> fileOffset s \<le> fileOffset (step e s)"
    by (simp add: step_offset)
  have ops: "0 < n \<and> fileOffset (completed s n) = fileOffset s + n \<and>
             (\<exists>cb. didReadCallback s = Some cb \<and>
                   step e s = call_cb cb buffer (completed s n) \<and>
                   (\<not> declares_short cb buffer \<longrightarrow>
                      fileOffset (completed s n) \<le> fileOffset (step e s)))"
    if e: "e = ReadDone (Inr buffer)" and un: "uncaught s = None"
      and fl: "inflight s = Some (pos, n)" and len: "int (length buffer) = n"
    for buffer pos n
  proof -
    from inv un fl obtain cb where cb: "didReadCallback s = Some cb" "n = 0 \<or> cb_wants cb n"
      and bw: "bytesWanted s = Some n" and pos: "0 < n"
      by (auto simp: session_inv_def)
    have st: "step e s = call_cb cb buffer (completed s n)"
      unfolding e completed_def using un fl len bw cb(1) by (rule step_ReadDone)
    have wants: "cb_wants cb (int (length buffer))" using cb(2) pos len by auto
    have "fileOffset (completed s n) \<le> fileOffset (step e s)"
      if "\<not> declares_short cb buffer"
      unfolding st using wants that by (rule call_cb_keeps_offset)
    with pos cb(1) st show ?thesis by (simp add: completed_def)
  qed
  from reads net ops show ?thesis by blast
qed

theorem C4_offset_per_operation_reads_within_size_witness:
  "reachable (serve (ex_magic @ ex_format @ ex_query) 3 1 (stream ex_file True (tailer ex_dir))) \<and>
   FsRead (Some 3) 31 19 \<in>
     set (new_calls (serve (ex_magic @ ex_format @ ex_query) 3 1 (stream ex_file True (tailer ex_dir)))
            (step (ReadDone (Inr ex_format_head))
               (serve (ex_magic @ ex_format @ ex_query) 3 1 (stream ex_file True (tailer ex_dir))))) \<and>
   within_known_size
     (step (ReadDone (Inr ex_format_head))
        (serve (ex_magic @ ex_format @ ex_query) 3 1 (stream ex_file True (tailer ex_dir))))
     (FsRead (Some 3) 31 19) \<and>
   fileOffset (serve (ex_magic @ ex_format @ ex_query) 3 1 (stream ex_file True (tailer ex_dir))) \<le>
     fileOffset (step (ReadDone (Inr ex_format_head))
                   (serve (ex_magic @ ex_format @ ex_query) 3 1 (stream ex_file True (tailer ex_dir)))) \<and>
   inflight (serve (ex_magic @ ex_format @ ex_query) 3 1 (stream ex_file True (tailer ex_dir))) =
     Some (4, 19) \<and>
   declares_short ExpectFirstEventCb ex_format_head = False \<and>
   fileOffset
     (completed (serve (ex_magic @ ex_format @ ex_query) 3 1 (stream ex_file True (tailer ex_dir))) 19) =
     fileOffset (serve (ex_magic @ ex_format @ ex_query) 3 1 (stream ex_file True (tailer ex_dir))) + 19 \<and>
   fileOffset
     (completed (serve (ex_magic @ ex_format @ ex_query) 3 1 (stream ex_file True (tailer ex_dir))) 19) \<le>
     fileOffset (step (ReadDone (Inr ex_format_head))
                   (serve (ex_magic @ ex_format @ ex_query) 3 1 (stream ex_file True (tailer ex_dir))))"
proof -
  let ?s = "serve (ex_magic @ ex_format @ ex_query) 3 1 (stream ex_file True (tailer ex_dir))"
  let ?e = "ReadDone (Inr ex_format_head)"
  have r: "reachable ?s" by (intro reachable_serve reachable.start)
  have ne: "?e \<noteq> NextFileChanged" by simp
  have mem: "FsRead (Some 3) 31 19 \<in> set (new_calls ?s (step ?e ?s))"
    by (simp add: new_calls_def model_defs ex_defs feed_One)
  have st: "uncaught ?s = None" "inflight ?s = Some (4, 19)"
    "didReadCallback ?s = Some ExpectFirstEventCb"
    by (simp_all add: model_defs ex_defs feed_One)
  have len: "int (length ex_format_head) = 19" by (simp add: ex_defs)
  have long: "\<not> declares_short ExpectFirstEventCb ex_format_head"
    by (simp add: declares_short_def readInt_def ex_defs)
  note c4 = C4_offset_per_operation_reads_within_size [OF r, of ?e]
  from c4 mem have a: "within_known_size (step ?e ?s) (FsRead (Some 3) 31 19)" by blast
  from c4 ne have b: "fileOffset ?s \<le> fileOffset (step ?e ?s)" by blast
  from c4 st(1,2) len
  have c: "fileOffset (completed ?s 19) = fileOffset ?s + 19 \<and>
           (\<exists>cb. didReadCallback ?s = Some cb \<and>
                 (\<not> declares_short cb ex_format_head \<longrightarrow>
                    fileOffset (completed ?s 19) \<le> fileOffset (step ?e ?s)))"
    by blast
  with st(3) long have d: "fileOffset (completed ?s 19) \<le> fileOffset (step ?e ?s)"
    by auto
  from r mem a b st(2) long c d show ?thesis by simp
qed

text \<open>
  C5. The claim: when a physical read fails, the session is torn down, one \<open>Error\<close>
  notification with the cause is published, and the read is not retried. The code tears
  the session down and does not retry, and then evaluates \<^verbatim>\<open>this.emit('error', err)\<close>
  where \<^verbatim>\<open>this\<close> is \<^verbatim>\<open>undefined\<close>: a \<^verbatim>\<open>TypeError\<close> leaves the callback and nothing is
  published. Here the second read of a session (the first event's header) fails with
  error 5.
\<close>

theorem C5_read_failure_publishes_nothing:
  "emitted (run [StatDone (Inr 118), OpenDone (Inr 3), ReadDone (Inr ex_magic), ReadDone (Inl 5)]
             (stream ex_file True (tailer ex_dir))) = [] \<and>
   uncaught (run [StatDone (Inr 118), OpenDone (Inr 3), ReadDone (Inr ex_magic), ReadDone (Inl 5)]
             (stream ex_file True (tailer ex_dir))) = Some ThisIsUndefined \<and>
   fs_log (run [StatDone (Inr 118), OpenDone (Inr 3), ReadDone (Inr ex_magic), ReadDone (Inl 5)]
             (stream ex_file True (tailer ex_dir))) =
     [FsStat ex_file, FsOpen ex_file, FsRead (Some 3) 0 4, FsWatchFile ex_file,
      FsRead (Some 3) 4 19, FsUnwatchFile ex_file, FsClose (Some 3)] \<and>
   watching (run [StatDone (Inr 118), OpenDone (Inr 3), ReadDone (Inr ex_magic), ReadDone (Inl 5)]
             (stream ex_file True (tailer ex_dir))) = False \<and>
   inflight (run [StatDone (Inr 118), OpenDone (Inr 3), ReadDone (Inr ex_magic), ReadDone (Inl 5)]
             (stream ex_file True (tailer ex_dir))) = None"
  by (simp add: model_defs ex_defs)

text \<open>
  C6. The claim: after a Stop event \<open>ServerStopped\<close> is published with the header's
  timestamp, the session is not stopped, and events appended later are decoded and
  published. The code publishes \<open>ServerStopped\<close> and keeps the watch, but \<^verbatim>\<open>parseStopEvent\<close>
  asks for no further read: when the file (magic, format description, Stop: 50 bytes)
  grows by a Query event to 110 bytes, the listener's \<^verbatim>\<open>readChunk()\<close> throws
  \<^verbatim>\<open>'No bytes wanted?'\<close> and the Query event is never read.
\<close>

theorem C6_nothing_decoded_after_stop:
  "emitted (serve (ex_magic @ ex_format @ ex_stop) 3 9 (stream ex_file True (tailer ex_dir))) =
     [LogStarted 1000 ex_file, ServerStopped 4000] \<and>
   watching (serve (ex_magic @ ex_format @ ex_stop) 3 9 (stream ex_file True (tailer ex_dir))) = True \<and>
   uncaught (serve (ex_magic @ ex_format @ ex_stop) 3 9 (stream ex_file True (tailer ex_dir))) = None \<and>
   emitted (feed (ex_magic @ ex_format @ ex_stop @ ex_query) 9
             (step (FileChanged 110)
                (serve (ex_magic @ ex_format @ ex_stop) 3 9 (stream ex_file True (tailer ex_dir))))) =
     [LogStarted 1000 ex_file, ServerStopped 4000] \<and>
   uncaught (feed (ex_magic @ ex_format @ ex_stop @ ex_query) 9
             (step (FileChanged 110)
                (serve (ex_magic @ ex_format @ ex_stop) 3 9 (stream ex_file True (tailer ex_dir))))) =
     Some NoBytesWanted"
  by (simp add: model_defs ex_defs feed_numeral feed_One)








text \<open>
  C9. The claim: the carry field set by a hint whose value is 0 is never attached to a
  later \<open>Query\<close>; a \<open>Query\<close> has a carry if and only if a carry field is nonzero when it is
  published; the carry is only cleared when it is attached. The second and third parts
  hold. The first does not: the condition of line 106 looks at both fields, and the
  \<open>meta\<close> object takes both. After the hints last-insert-id 0 and insert-id 5, the \<open>Query\<close>
  carries last-insert-id 0 next to insert-id 5. (The file had 31 bytes when the tailer
  started and has grown to 147.)
\<close>

theorem C9_zero_field_is_attached:
  "emitted (run [StatDone (Inr 31), OpenDone (Inr 3), ReadDone (Inr ex_magic),
                 ReadDone (Inr ex_format_head), FileChanged 147,
                 ReadDone (Inr ex_intvar_head), ReadDone (Inr ex_last_insert_id_0),
                 ReadDone (Inr ex_intvar_head), ReadDone (Inr ex_insert_id_5),
                 ReadDone (Inr ex_query_head), ReadDone (Inr ex_query_body)]
              (stream ex_file True (tailer ex_dir))) =
     [LogStarted 1000 ex_file, Query 3000 ex_app ex_insert (Some (Meta (Some 0) (Some 5)))]"
  by (simp add: model_defs ex_defs)

text \<open>
  C9, as amended. When the body of a Query event that is to be published has been read,
  the \<open>Query\<close> notification carries both carry fields, as they are, if at least one of
  them is a number other than 0, and no carry otherwise (so a field that a hint set to 0
  is attached together with a nonzero other field, and never alone); the two fields are
  cleared if the carry was attached and are left as they are if not.
\<close>

theorem C9_carry_attached_iff_nonzero:
  assumes "uncaught s = None" and "inflight s = Some (pos, n)" and "bytesWanted s = Some n"
    and "didReadCallback s = Some (ParseQueryEventCb ts)" and "int (length body) = n"
  shows "\<exists>db query.
           emitted (step (ReadDone (Inr body)) s) =
             emitted s @
               [Query ts db query
                  (if carry_pending (lastInsertId s) (autoIncrement s)
                   then Some (Meta (lastInsertId s) (autoIncrement s)) else None)] \<and>
           lastInsertId (step (ReadDone (Inr body)) s) =
             (if carry_pending (lastInsertId s) (autoIncrement s) then None else lastInsertId s) \<and>
           autoIncrement (step (ReadDone (Inr body)) s) =
             (if carry_pending (lastInsertId s) (autoIncrement s) then None else autoIncrement s)"
proof -
  have c: "carry_pending l a = (truthy l \<or> truthy a)" for l a
    by (auto simp: carry_pending_def truthy_def split: option.splits)
  from assms show ?thesis
    by (simp add: step_ReadDone parseQueryEvent_cb_def Let_def expectEvent_def emit_def c)
qed


theorem C9_carry_attached_iff_nonzero_witness:
  "\<exists>db query.
     emitted (run [StatDone (Inr 31), OpenDone (Inr 3), ReadDone (Inr ex_magic),
                   ReadDone (Inr ex_format_head), FileChanged 119,
                   ReadDone (Inr ex_intvar_head), ReadDone (Inr ex_last_insert_id_7),
                   ReadDone (Inr ex_query_head), ReadDone (Inr ex_query_body)]
                (stream ex_file True (tailer ex_dir))) =
       [LogStarted 1000 ex_file, Query 3000 db query (Some (Meta (Some 7) None))]"
proof -
  let ?s = "run [StatDone (Inr 31), OpenDone (Inr 3), ReadDone (Inr ex_magic),
                 ReadDone (Inr ex_format_head), FileChanged 119,
                 ReadDone (Inr ex_intvar_head), ReadDone (Inr ex_last_insert_id_7),
                 ReadDone (Inr ex_query_head)]
              (stream ex_file True (tailer ex_dir))"
  have st: "uncaught ?s = None" "inflight ?s = Some (78, 41)" "bytesWanted ?s = Some 41"
    "didReadCallback ?s = Some (ParseQueryEventCb 3000)"
    "emitted ?s = [LogStarted 1000 ex_file]"
    "lastInsertId ?s = Some 7" "autoIncrement ?s = None"
    by (simp_all add: model_defs ex_defs)
  have len: "int (length ex_query_body) = 41" by (simp add: ex_defs)
  from C9_carry_attached_iff_nonzero [OF st(1,2,3,4) len]
  obtain db query where
    "emitted (step (ReadDone (Inr ex_query_body)) ?s) =
       emitted ?s @
         [Query 3000 db query
            (if carry_pending (lastInsertId ?s) (autoIncrement ?s)
             then Some (Meta (lastInsertId ?s) (autoIncrement ?s)) else None)]"
    by blast
  then have "emitted (step (ReadDone (Inr ex_query_body)) ?s) =
       [LogStarted 1000 ex_file, Query 3000 db query (Some (Meta (Some 7) None))]"
    by (simp add: st carry_pending_def)
  then show ?thesis by (auto simp: run_def)
qed

text \<open>
  C10. The claim: whenever the cursor is ready and a file-change notification calls
  \<^verbatim>\<open>readChunk\<close>, a read request is pending, so the \<^verbatim>\<open>throw\<close> of line 230 cannot be
  reached. After an event of an unknown type (and after a Stop event, C6) the cursor is
  ready, the watch is on and no bytes are wanted: the next notification throws. The file
  is magic, format description, Xid (58 bytes); the notification reports 85 bytes.
\<close>

theorem C10_no_bytes_wanted_is_reached:
  "ready (serve (ex_magic @ ex_format @ ex_xid) 3 9 (stream ex_file True (tailer ex_dir))) = True \<and>
   watching (serve (ex_magic @ ex_format @ ex_xid) 3 9 (stream ex_file True (tailer ex_dir))) = True \<and>
   bytesWanted (serve (ex_magic @ ex_format @ ex_xid) 3 9 (stream ex_file True (tailer ex_dir))) = Some 0 \<and>
   uncaught (serve (ex_magic @ ex_format @ ex_xid) 3 9 (stream ex_file True (tailer ex_dir))) = None \<and>
   uncaught (step (FileChanged 85)
               (serve (ex_magic @ ex_format @ ex_xid) 3 9 (stream ex_file True (tailer ex_dir)))) =
     Some NoBytesWanted"
  by (simp add: model_defs ex_defs feed_numeral feed_One)

end
